theory Spec2Isabelle
  imports Complex_Main "HOL-Library.Word"
begin

unbundle bit_operations_syntax

section \<open>JavaScript primitives used by the GRIB2 parser\<close>

text \<open>
  A Node \<open>Buffer\<close> is a sequence of bytes. Reading \<open>buffer[i]\<close> outside the buffer
  (also at a negative index) gives \<open>undefined\<close>, modelled as \<open>None\<close>. Offsets are
  \<open>int\<close>: the parser adds section lengths that the 32-bit reader can return negative.
\<close>

type_synonym buffer = "8 word list"

definition byteAt :: "buffer \<Rightarrow> int \<Rightarrow> 8 word option" where
  "byteAt buffer i =
     (if 0 \<le> i \<and> i < int (length buffer) then Some (buffer ! nat i) else None)"

text \<open>
  JavaScript's bitwise operators convert their operands with ToInt32 and return a signed
  32-bit integer; the shift count is taken modulo 32. \<open>undefined\<close> converts to 0.
\<close>

definition ToInt32 :: "int \<Rightarrow> 32 word" where
  "ToInt32 x = word_of_int x"

definition js_shl :: "int \<Rightarrow> int \<Rightarrow> int" where
  "js_shl a k = sint (push_bit (nat (k mod 32)) (ToInt32 a))"

definition js_shr :: "int \<Rightarrow> int \<Rightarrow> int" where
  "js_shr a k = sint (signed_drop_bit (nat (k mod 32)) (ToInt32 a))"

definition js_or :: "int \<Rightarrow> int \<Rightarrow> int" where
  "js_or a b = sint (ToInt32 a OR ToInt32 b)"

definition js_and :: "int \<Rightarrow> int \<Rightarrow> int" where
  "js_and a b = sint (ToInt32 a AND ToInt32 b)"

definition undef0 :: "8 word option \<Rightarrow> int" where
  "undef0 b = (case b of None \<Rightarrow> 0 | Some v \<Rightarrow> uint v)"

section \<open>Byte readers\<close>

text \<open>
  \<^verbatim>\<open>function readUint(buffer, offset, bytes) {
    let value = 0;
    for (let i = 0; i < bytes; i++) value = (value << 8) | buffer[offset + i];
    return value; }\<close>
\<close>

function readUint_loop :: "buffer \<Rightarrow> int \<Rightarrow> nat \<Rightarrow> nat \<Rightarrow> int \<Rightarrow> int" where
  "readUint_loop buffer offset bytes i value =
     (if i < bytes
      then readUint_loop buffer offset bytes (Suc i)
             (js_or (js_shl value 8) (undef0 (byteAt buffer (offset + int i))))
      else value)"
  by pat_completeness auto
termination
  by (relation "measure (\<lambda>(buffer, offset, bytes, i, value). bytes - i)") auto

declare readUint_loop.simps [simp del]

definition readUint :: "buffer \<Rightarrow> int \<Rightarrow> nat \<Rightarrow> int" where
  "readUint buffer offset bytes = readUint_loop buffer offset bytes 0 0"

text \<open>
  \<^verbatim>\<open>function readInt(buffer, offset, bytes) {
    const value = readUint(buffer, offset, bytes);
    const signBit = 1 << (bytes * 8 - 1);
    if (value & signBit) return -(value & (signBit - 1));
    return value; }\<close>
  \<open>signBit - 1\<close> is ordinary (double) arithmetic; the \<open>&\<close> converts it back with ToInt32.
\<close>

definition readInt :: "buffer \<Rightarrow> int \<Rightarrow> nat \<Rightarrow> int" where
  "readInt buffer offset bytes =
     (let value = readUint buffer offset bytes;
          signBit = js_shl 1 (int bytes * 8 - 1)
      in if js_and value signBit \<noteq> 0 then - (js_and value (signBit - 1)) else value)"

text \<open>The unsigned big-endian value of a byte sequence (the reading the specification asks for).\<close>

definition be_nat :: "8 word list \<Rightarrow> nat" where
  "be_nat bs = foldl (\<lambda>v b. v * 256 + unat b) 0 bs"

section \<open>Template 200: run-length unpacking\<close>

text \<open>
  The field is a \<open>Float32Array\<close>. The values this decoder stores, \<open>-999\<close> and
  \<open>value * 0.5 - 33\<close> for a byte \<open>value\<close>, are multiples of one half below 1000 in
  magnitude: both the double arithmetic and the store to single precision are exact, so
  the cells are modelled as \<open>real\<close>.

  \<^verbatim>\<open>for (let j = 0; j < count && i < numPoints; j++, i++) values[i] = dbz;\<close>
  The loop returns the field and the cell index \<open>i\<close> it reached.
\<close>

function unpackRunLength_run :: "real list \<Rightarrow> nat \<Rightarrow> nat \<Rightarrow> nat \<Rightarrow> nat \<Rightarrow> real \<Rightarrow> real list \<times> nat" where
  "unpackRunLength_run values i j count numPoints dbz =
     (if j < count \<and> i < numPoints
      then unpackRunLength_run (values[i := dbz]) (Suc i) (Suc j) count numPoints dbz
      else (values, i))"
  by pat_completeness auto
termination
  by (relation "measure (\<lambda>(values, i, j, count, numPoints, dbz). count - j)") auto

declare unpackRunLength_run.simps [simp del]

text \<open>
  \<^verbatim>\<open>while (pos < dataBuffer.length - 1 && i < numPoints) {
    const value = dataBuffer[pos]; const count = dataBuffer[pos + 1];
    const dbz = value === 0 ? -999 : value * 0.5 - 33;
    for (...) values[i] = dbz;
    pos += 2; }\<close>
\<close>

function unpackRunLength_loop :: "buffer \<Rightarrow> nat \<Rightarrow> nat \<Rightarrow> nat \<Rightarrow> real list \<Rightarrow> real list" where
  "unpackRunLength_loop dataBuffer numPoints pos i values =
     (if int pos < int (length dataBuffer) - 1 \<and> i < numPoints
      then
        (let value = dataBuffer ! pos;
             count = dataBuffer ! (pos + 1);
             dbz = (if value = 0 then - 999 else real (unat value) * 0.5 - 33);
             (values', i') = unpackRunLength_run values i 0 (unat count) numPoints dbz
         in unpackRunLength_loop dataBuffer numPoints (pos + 2) i' values')
      else values)"
  by pat_completeness auto
termination
  by (relation "measure (\<lambda>(dataBuffer, numPoints, pos, i, values). length dataBuffer - pos)") auto

declare unpackRunLength_loop.simps [simp del]

definition unpackRunLength :: "buffer \<Rightarrow> nat \<Rightarrow> real list" where
  "unpackRunLength dataBuffer numPoints =
     unpackRunLength_loop dataBuffer numPoints 0 0 (replicate numPoints (- 999))"

text \<open>
  The specification's reading of template 200: the buffer as (value, count) pairs, each
  expanded to \<open>count\<close> copies of its dBZ; a trailing single byte is not a pair.
\<close>

fun rle_pairs :: "buffer \<Rightarrow> (8 word \<times> 8 word) list" where
  "rle_pairs (v # c # rest) = (v, c) # rle_pairs rest"
| "rle_pairs _ = []"

definition rle_dbz :: "8 word \<Rightarrow> real" where
  "rle_dbz v = (if v = 0 then - 999 else real (unat v) * 0.5 - 33)"

definition rle_expand :: "buffer \<Rightarrow> real list" where
  "rle_expand dataBuffer = concat (map (\<lambda>(v, c). replicate (unat c) (rle_dbz v)) (rle_pairs dataBuffer))"

definition rle_field :: "buffer \<Rightarrow> nat \<Rightarrow> real list" where
  "rle_field dataBuffer numPoints =
     take numPoints (rle_expand dataBuffer @ replicate numPoints (- 999))"

section \<open>Color mapper\<close>

text \<open>
  A JavaScript number is NaN, an infinity, or finite. Comparisons of finite doubles are
  exact, so a finite value is modelled by the real it denotes. The interpolation is
  modelled in exact real arithmetic: the rounding of the intermediate double products is
  not part of the model.
\<close>

datatype jsnum = NaN | NegInf | PosInf | Fin real

type_synonym rgba = "int \<times> int \<times> int \<times> int"

record stop =
  stop_dbz :: real
  stop_color :: rgba

definition mkstop :: "real \<Rightarrow> rgba \<Rightarrow> stop" where
  "mkstop d c = \<lparr> stop_dbz = d, stop_color = c \<rparr>"

definition COLOR_SCALE :: "stop list" where
  "COLOR_SCALE =
    [ mkstop (- 30) (0, 0, 0, 0),
      mkstop 0 (0, 0, 0, 0),
      mkstop 5 (4, 68, 94, 160),
      mkstop 10 (0, 160, 180, 200),
      mkstop 15 (0, 200, 160, 220),
      mkstop 20 (0, 230, 0, 240),
      mkstop 25 (0, 200, 0, 250),
      mkstop 30 (0, 144, 0, 255),
      mkstop 35 (255, 255, 0, 255),
      mkstop 40 (255, 192, 0, 255),
      mkstop 45 (255, 128, 0, 255),
      mkstop 50 (255, 0, 0, 255),
      mkstop 55 (200, 0, 0, 255),
      mkstop 60 (255, 0, 200, 255),
      mkstop 65 (160, 0, 255, 255),
      mkstop 70 (255, 255, 255, 255),
      mkstop 75 (200, 200, 255, 255) ]"

text \<open>
  \<^verbatim>\<open>for (let i = 0; i < COLOR_SCALE.length - 1; i++)
    if (dbz >= COLOR_SCALE[i].dbz && dbz < COLOR_SCALE[i + 1].dbz) {
      lower = COLOR_SCALE[i]; upper = COLOR_SCALE[i + 1]; break; }\<close>
  The scan over adjacent stops; \<open>None\<close> when no pair matches and the initial
  \<open>lower\<close>, \<open>upper\<close> stay.
\<close>

fun findStops :: "real \<Rightarrow> stop list \<Rightarrow> (stop \<times> stop) option" where
  "findStops x (a # b # rest) =
     (if x \<ge> stop_dbz a \<and> x < stop_dbz b then Some (a, b) else findStops x (b # rest))"
| "findStops x _ = None"

text \<open>\<open>Math.round\<close>: the nearest integer, a tie going up.\<close>

definition Math_round :: "real \<Rightarrow> int" where
  "Math_round x = \<lfloor>x + 1 / 2\<rfloor>"

definition lerp :: "int \<Rightarrow> int \<Rightarrow> real \<Rightarrow> int" where
  "lerp lo hi t = Math_round (real_of_int lo + t * (real_of_int hi - real_of_int lo))"

definition getColorFinite :: "real \<Rightarrow> rgba" where
  "getColorFinite x =
     (if x < - 900 then (0, 0, 0, 0)
      else
        (let (lower, upper) =
               (case findStops x COLOR_SCALE of
                  Some p \<Rightarrow> p
                | None \<Rightarrow> (hd COLOR_SCALE, last COLOR_SCALE))
         in if x < stop_dbz (hd COLOR_SCALE) then stop_color (hd COLOR_SCALE)
            else if x \<ge> stop_dbz (last COLOR_SCALE) then stop_color (last COLOR_SCALE)
            else
              (let range = stop_dbz upper - stop_dbz lower;
                   t = (if range = 0 then 0 else (x - stop_dbz lower) / range);
                   (r0, g0, b0, a0) = stop_color lower;
                   (r1, g1, b1, a1) = stop_color upper
               in (lerp r0 r1 t, lerp g0 g1 t, lerp b0 b1 t, lerp a0 a1 t))))"

text \<open>
  \<open>getColorForDbz\<close> by the kind of number: NaN is caught by \<open>isNaN\<close>; minus infinity
  is below \<open>-900\<close>; plus infinity matches no pair of stops, is not below the first stop
  and is at or above the last.
\<close>

fun getColorForDbz :: "jsnum \<Rightarrow> rgba" where
  "getColorForDbz NaN = (0, 0, 0, 0)"
| "getColorForDbz NegInf = (0, 0, 0, 0)"
| "getColorForDbz PosInf = stop_color (last COLOR_SCALE)"
| "getColorForDbz (Fin x) = getColorFinite x"



section \<open>Raster renderer\<close>

text \<open>
  \<^verbatim>\<open>const dbz = values[srcIdx] || -999;\<close>
  \<open>values[srcIdx]\<close> is \<open>undefined\<close> past the end of the array; \<open>undefined\<close>, NaN and
  zero (of either sign) are falsy and give \<open>-999\<close>.
\<close>

definition cellOrMissing :: "jsnum list \<Rightarrow> nat \<Rightarrow> jsnum" where
  "cellOrMissing values srcIdx =
     (if srcIdx < length values
      then (case values ! srcIdx of
              NaN \<Rightarrow> Fin (- 999)
            | Fin x \<Rightarrow> (if x = 0 then Fin (- 999) else Fin x)
            | v \<Rightarrow> v)
      else Fin (- 999))"

text \<open>
  \<^verbatim>\<open>const scanWestToEast = !(scanningMode & 0x80);
  const scanNorthToSouth = !(scanningMode & 0x40);\<close>
  \<open>scanningMode\<close> is a byte, or \<open>undefined\<close> when the grid record has none.
\<close>

definition scanWestToEast :: "8 word option \<Rightarrow> bool" where
  "scanWestToEast scanningMode = (js_and (undef0 scanningMode) 0x80 = 0)"

definition scanNorthToSouth :: "8 word option \<Rightarrow> bool" where
  "scanNorthToSouth scanningMode = (js_and (undef0 scanningMode) 0x40 = 0)"

definition srcIdx :: "nat \<Rightarrow> nat \<Rightarrow> 8 word option \<Rightarrow> nat \<Rightarrow> nat \<Rightarrow> nat" where
  "srcIdx width height scanningMode j i =
     (let srcY = (if scanNorthToSouth scanningMode then j else height - 1 - j);
          srcX = (if scanWestToEast scanningMode then i else width - 1 - i)
      in srcY * width + srcX)"

text \<open>
  The pixel loops of \<open>renderRadarPng\<close>, \<open>j\<close> over the rows and \<open>i\<close> over the columns,
  each writing the four bytes at \<open>(j * width + i) * 4\<close>. The pixel buffer is modelled as
  the list of its RGBA pixels; every pixel is written once.
\<close>

function renderRow :: "jsnum list \<Rightarrow> nat \<Rightarrow> nat \<Rightarrow> 8 word option \<Rightarrow> nat \<Rightarrow> nat \<Rightarrow> rgba list \<Rightarrow> rgba list" where
  "renderRow values width height scanningMode j i pixels =
     (if i < width
      then renderRow values width height scanningMode j (Suc i)
             (pixels[j * width + i :=
                getColorForDbz (cellOrMissing values (srcIdx width height scanningMode j i))])
      else pixels)"
  by pat_completeness auto
termination
  by (relation "measure (\<lambda>(values, width, height, scanningMode, j, i, pixels). width - i)") auto

declare renderRow.simps [simp del]

function renderRows :: "jsnum list \<Rightarrow> nat \<Rightarrow> nat \<Rightarrow> 8 word option \<Rightarrow> nat \<Rightarrow> rgba list \<Rightarrow> rgba list" where
  "renderRows values width height scanningMode j pixels =
     (if j < height
      then renderRows values width height scanningMode (Suc j)
             (renderRow values width height scanningMode j 0 pixels)
      else pixels)"
  by pat_completeness auto
termination
  by (relation "measure (\<lambda>(values, width, height, scanningMode, j, pixels). height - j)") auto

declare renderRows.simps [simp del]

text \<open>\<open>new Uint8Array(width * height * 4)\<close> is zero-filled.\<close>

definition renderPixels :: "jsnum list \<Rightarrow> nat \<Rightarrow> nat \<Rightarrow> 8 word option \<Rightarrow> rgba list" where
  "renderPixels values width height scanningMode =
     renderRows values width height scanningMode 0 (replicate (width * height) (0, 0, 0, 0))"

section \<open>Grid templates\<close>

text \<open>
  Angles are modelled in exact real arithmetic: the quotient of the integer read from the
  buffer by the angle divisor. A field that a grid record does not carry is \<open>None\<close>
  (\<open>undefined\<close> in the source).
\<close>

record bounds =
  west :: real
  east :: real
  south :: real
  north :: real

record gridInfo =
  grid_numPoints :: int
  grid_templateNum :: int
  grid_width :: "int option"
  grid_height :: "int option"
  grid_lat1 :: "real option"
  grid_lon1 :: "real option"
  grid_lat2 :: "real option"
  grid_lon2 :: "real option"
  grid_dx :: "real option"
  grid_dy :: "real option"
  grid_scanningMode :: "8 word option"
  grid_bounds :: "bounds option"

text \<open>
  \<^verbatim>\<open>const angleDivisor =
    basicAngle === 0 || subdivisions === 0 ? 1e6 : basicAngle * subdivisions;\<close>
\<close>

definition angleDivisor :: "buffer \<Rightarrow> int \<Rightarrow> int" where
  "angleDivisor buffer offset =
     (let basicAngle = readUint buffer (offset + 24) 4;
          subdivisions = readUint buffer (offset + 28) 4
      in if basicAngle = 0 \<or> subdivisions = 0 then 1000000 else basicAngle * subdivisions)"

text \<open>\<^verbatim>\<open>if (lon > 180) lon -= 360;\<close>\<close>

definition wrapLon :: "real \<Rightarrow> real" where
  "wrapLon lon = (if lon > 180 then lon - 360 else lon)"

definition parseGridTemplate0 :: "buffer \<Rightarrow> int \<Rightarrow> int \<Rightarrow> gridInfo" where
  "parseGridTemplate0 buffer offset numPoints =
     (let nx = readUint buffer (offset + 16) 4;
          ny = readUint buffer (offset + 20) 4;
          d = real_of_int (angleDivisor buffer offset);
          lat1 = real_of_int (readInt buffer (offset + 32) 4) / d;
          lon1 = real_of_int (readInt buffer (offset + 36) 4) / d;
          lat2 = real_of_int (readInt buffer (offset + 41) 4) / d;
          lon2 = real_of_int (readInt buffer (offset + 45) 4) / d;
          dx = real_of_int (readUint buffer (offset + 49) 4) / d;
          dy = real_of_int (readUint buffer (offset + 53) 4) / d;
          scanningMode = byteAt buffer (offset + 57);
          lon1 = wrapLon lon1;
          lon2 = wrapLon lon2
      in \<lparr> grid_numPoints = numPoints, grid_templateNum = 0,
           grid_width = Some nx, grid_height = Some ny,
           grid_lat1 = Some lat1, grid_lon1 = Some lon1,
           grid_lat2 = Some lat2, grid_lon2 = Some lon2,
           grid_dx = Some dx, grid_dy = Some dy,
           grid_scanningMode = scanningMode,
           grid_bounds = Some \<lparr> west = min lon1 lon2, east = max lon1 lon2,
                                 south = min lat1 lat2, north = max lat1 lat2 \<rparr> \<rparr>)"

definition parseGridTemplate30 :: "buffer \<Rightarrow> int \<Rightarrow> int \<Rightarrow> gridInfo" where
  "parseGridTemplate30 buffer offset numPoints =
     (let nx = readUint buffer (offset + 16) 4;
          ny = readUint buffer (offset + 20) 4;
          lat1 = real_of_int (readInt buffer (offset + 24) 4) / 1000000;
          lon1 = wrapLon (real_of_int (readInt buffer (offset + 28) 4) / 1000000)
      in \<lparr> grid_numPoints = numPoints, grid_templateNum = 30,
           grid_width = Some nx, grid_height = Some ny,
           grid_lat1 = Some lat1, grid_lon1 = Some lon1,
           grid_lat2 = None, grid_lon2 = None, grid_dx = None, grid_dy = None,
           grid_scanningMode = None,
           grid_bounds = Some \<lparr> west = - 130, east = - 60, south = 20, north = 55 \<rparr> \<rparr>)"

section \<open>Data-representation unpackers\<close>

text \<open>
  The decoding formula \<open>(R + X * 2^E) * 10^(-D)\<close> is modelled in exact real arithmetic,
  with \<open>R\<close> a finite number: the rounding of the double operations and of the store
  into the \<open>Float32Array\<close> is not part of the model. The packed integer \<open>X\<close> is computed
  with the 32-bit operators of the source.
\<close>

definition gribValue :: "real \<Rightarrow> int \<Rightarrow> int \<Rightarrow> int \<Rightarrow> real" where
  "gribValue referenceValue binaryScaleFactor decimalScaleFactor packedValue =
     (let binaryFactor = 2 powi binaryScaleFactor;
          decimalFactor = 10 powi (- decimalScaleFactor)
      in (referenceValue + real_of_int packedValue * binaryFactor) * decimalFactor)"

text \<open>
  The inner loop of \<open>unpackSimple\<close>:
  \<^verbatim>\<open>while (bitsRemaining > 0) {
    const bitsToRead = Math.min(bitsRemaining, 8 - currentBitPos);
    const mask = (1 << bitsToRead) - 1;
    const shift = 8 - currentBitPos - bitsToRead;
    if (currentByte < dataBuffer.length) {
      const bits = (dataBuffer[currentByte] >> shift) & mask;
      packedValue = (packedValue << bitsToRead) | bits; }
    bitsRemaining -= bitsToRead; currentBitPos += bitsToRead;
    if (currentBitPos >= 8) { currentBitPos = 0; currentByte++; } }\<close>
  \<open>currentBitPos\<close> starts as \<open>bitOffset % 8\<close> and is reset at 8, so it is below 8 at
  every test of the loop; the model's loop test says so, which makes every step consume
  at least one bit.
\<close>

function unpackSimple_bits :: "buffer \<Rightarrow> nat \<Rightarrow> nat \<Rightarrow> nat \<Rightarrow> int \<Rightarrow> int" where
  "unpackSimple_bits dataBuffer bitsRemaining currentByte currentBitPos packedValue =
     (if bitsRemaining > 0 \<and> currentBitPos < 8
      then
        (let bitsToRead = min bitsRemaining (8 - currentBitPos);
             mask = js_shl 1 (int bitsToRead) - 1;
             shift = 8 - currentBitPos - bitsToRead;
             packedValue' =
               (if currentByte < length dataBuffer
                then js_or (js_shl packedValue (int bitsToRead))
                       (js_and (js_shr (uint (dataBuffer ! currentByte)) (int shift)) mask)
                else packedValue)
         in if currentBitPos + bitsToRead \<ge> 8
            then unpackSimple_bits dataBuffer (bitsRemaining - bitsToRead) (currentByte + 1) 0 packedValue'
            else unpackSimple_bits dataBuffer (bitsRemaining - bitsToRead) currentByte
                   (currentBitPos + bitsToRead) packedValue')
      else packedValue)"
  by pat_completeness auto
termination
  by (relation "measure (\<lambda>(dataBuffer, bitsRemaining, currentByte, currentBitPos, packedValue). bitsRemaining)")
     (auto simp: min_def)

declare unpackSimple_bits.simps [simp del]

text \<open>The packed integer of cell \<open>i\<close>, read at \<open>bitOffset = i * bitsPerValue\<close>.\<close>

definition unpackSimple_packed :: "buffer \<Rightarrow> nat \<Rightarrow> nat \<Rightarrow> int" where
  "unpackSimple_packed dataBuffer bitsPerValue bitOffset =
     unpackSimple_bits dataBuffer bitsPerValue (bitOffset div 8) (bitOffset mod 8) 0"

function unpackSimple_loop :: "buffer \<Rightarrow> real \<Rightarrow> int \<Rightarrow> int \<Rightarrow> nat \<Rightarrow> nat \<Rightarrow> nat \<Rightarrow> nat \<Rightarrow> real list \<Rightarrow> real list" where
  "unpackSimple_loop dataBuffer R E D bitsPerValue numPoints i bitOffset values =
     (if i < numPoints
      then unpackSimple_loop dataBuffer R E D bitsPerValue numPoints (Suc i) (bitOffset + bitsPerValue)
             (values[i := gribValue R E D (unpackSimple_packed dataBuffer bitsPerValue bitOffset)])
      else values)"
  by pat_completeness auto
termination
  by (relation "measure (\<lambda>(dataBuffer, R, E, D, bitsPerValue, numPoints, i, bitOffset, values). numPoints - i)") auto

declare unpackSimple_loop.simps [simp del]

text \<open>
  \<open>bitsPerValue\<close> is a byte of section 5, or \<open>undefined\<close> when section 5 ends before it:
  then \<open>bitsPerValue === 0\<close> is false and the inner loop never runs, so every packed
  value is 0.
\<close>

definition unpackSimple :: "buffer \<Rightarrow> real \<Rightarrow> int \<Rightarrow> int \<Rightarrow> 8 word option \<Rightarrow> nat \<Rightarrow> real list" where
  "unpackSimple dataBuffer R E D bitsPerValue numPoints =
     (case bitsPerValue of
        None \<Rightarrow> replicate numPoints (gribValue R E D 0)
      | Some b \<Rightarrow>
          if b = 0 then replicate numPoints (R * 10 powi (- D))
          else unpackSimple_loop dataBuffer R E D (unat b) numPoints 0 0 (replicate numPoints 0))"

text \<open>
  The specification's reading of a packed value: the unsigned bit field of \<open>bitWidth\<close>
  bits at \<open>bitOffset\<close>, counted from the most significant bit of byte 0, for a field
  that lies inside the buffer.
\<close>

definition bitField :: "buffer \<Rightarrow> nat \<Rightarrow> nat \<Rightarrow> nat" where
  "bitField dataBuffer bitOffset bitWidth =
     (be_nat dataBuffer div 2 ^ (8 * length dataBuffer - (bitOffset + bitWidth))) mod 2 ^ bitWidth"

text \<open>
  \<^verbatim>\<open>for (let i = 0; i < numPoints; i++)
    if (i < dataBuffer.length) values[i] = (R + dataBuffer[i] * binaryFactor) * decimalFactor;
    else values[i] = -999;\<close>
  The JPEG 2000 fallback, and, with \<open>headerSize = 8\<close> added to the byte index, the PNG
  fallback.
\<close>

function unpackBytes_loop :: "buffer \<Rightarrow> nat \<Rightarrow> real \<Rightarrow> int \<Rightarrow> int \<Rightarrow> nat \<Rightarrow> nat \<Rightarrow> real list \<Rightarrow> real list" where
  "unpackBytes_loop dataBuffer headerSize R E D numPoints i values =
     (if i < numPoints
      then unpackBytes_loop dataBuffer headerSize R E D numPoints (Suc i)
             (values[i := (if headerSize + i < length dataBuffer
                           then gribValue R E D (uint (dataBuffer ! (headerSize + i)))
                           else - 999)])
      else values)"
  by pat_completeness auto
termination
  by (relation "measure (\<lambda>(dataBuffer, headerSize, R, E, D, numPoints, i, values). numPoints - i)") auto

declare unpackBytes_loop.simps [simp del]

definition unpackJpeg2000Fallback :: "buffer \<Rightarrow> real \<Rightarrow> int \<Rightarrow> int \<Rightarrow> nat \<Rightarrow> real list" where
  "unpackJpeg2000Fallback dataBuffer R E D numPoints =
     unpackBytes_loop dataBuffer 0 R E D numPoints 0 (replicate numPoints 0)"

definition unpackPngFallback :: "buffer \<Rightarrow> real \<Rightarrow> int \<Rightarrow> int \<Rightarrow> nat \<Rightarrow> real list" where
  "unpackPngFallback dataBuffer R E D numPoints =
     unpackBytes_loop dataBuffer 8 R E D numPoints 0 (replicate numPoints 0)"

text \<open>
  The PNG decoder is the external library \<open>sharp\<close>: its result for the data section is
  a parameter of the model, either a failure (any exception inside the \<open>try\<close>) or the
  raw pixel bytes with the number of channels.
\<close>

datatype sharp_result = SharpError | SharpRaw "8 word list" nat

text \<open>
  \<^verbatim>\<open>if (bitsPerValue <= 8) packedValue = data[i * channels];
  else if (bitsPerValue <= 16 && channels >= 2)
    packedValue = (data[i * channels] << 8) | data[i * channels + 1];
  else packedValue = data[i * channels];\<close>
  With \<open>bitsPerValue\<close> undefined both comparisons are false.
\<close>

definition unpackPng_packed :: "8 word list \<Rightarrow> nat \<Rightarrow> 8 word option \<Rightarrow> nat \<Rightarrow> int" where
  "unpackPng_packed data channels bitsPerValue i =
     (let first = undef0 (byteAt data (int (i * channels)))
      in case bitsPerValue of
           None \<Rightarrow> first
         | Some b \<Rightarrow>
             if b \<le> 8 then first
             else if b \<le> 16 \<and> channels \<ge> 2
               then js_or (js_shl first 8) (undef0 (byteAt data (int (i * channels + 1))))
             else first)"

text \<open>
  \<^verbatim>\<open>const rawValue = (referenceValue + packedValue * binaryFactor) * decimalFactor;
  if (rawValue < -30 || packedValue === 0) values[i] = -999; else values[i] = rawValue;\<close>
\<close>

definition unpackPng_cell :: "real \<Rightarrow> int \<Rightarrow> int \<Rightarrow> int \<Rightarrow> real" where
  "unpackPng_cell R E D packedValue =
     (let rawValue = gribValue R E D packedValue
      in if rawValue < - 30 \<or> packedValue = 0 then - 999 else rawValue)"

text \<open>
  \<^verbatim>\<open>for (let i = 0; i < numPoints && i < data.length / channels; i++) ...\<close>
  \<open>data.length / channels\<close> is a division of doubles: with \<open>channels = 0\<close> it is
  \<open>Infinity\<close>, or NaN for empty data; otherwise \<open>i < data.length / channels\<close> holds
  exactly when \<open>i * channels < data.length\<close>.
\<close>

definition belowPixelCount :: "nat \<Rightarrow> nat \<Rightarrow> nat \<Rightarrow> bool" where
  "belowPixelCount i len channels =
     (if channels = 0 then len > 0 else i * channels < len)"

function unpackPng_loop :: "8 word list \<Rightarrow> nat \<Rightarrow> real \<Rightarrow> int \<Rightarrow> int \<Rightarrow> 8 word option \<Rightarrow> nat \<Rightarrow> nat \<Rightarrow> real list \<Rightarrow> real list" where
  "unpackPng_loop data channels R E D bitsPerValue numPoints i values =
     (if i < numPoints \<and> belowPixelCount i (length data) channels
      then unpackPng_loop data channels R E D bitsPerValue numPoints (Suc i)
             (values[i := unpackPng_cell R E D (unpackPng_packed data channels bitsPerValue i)])
      else values)"
  by pat_completeness auto
termination
  by (relation "measure (\<lambda>(data, channels, R, E, D, bitsPerValue, numPoints, i, values). numPoints - i)") auto

declare unpackPng_loop.simps [simp del]

text \<open>
  \<^verbatim>\<open>for (let i = data.length / channels; i < numPoints; i++) values[i] = -999;\<close>
  When \<open>data.length / channels\<close> is a whole number the loop fills the cells from there
  on. When it is not, no index it visits is an integer and the stores to the typed array
  do nothing; with \<open>channels = 0\<close> the start is \<open>Infinity\<close> or NaN and the loop does not
  run.
\<close>

function unpackPng_fill :: "nat \<Rightarrow> nat \<Rightarrow> real list \<Rightarrow> real list" where
  "unpackPng_fill numPoints i values =
     (if i < numPoints then unpackPng_fill numPoints (Suc i) (values[i := - 999]) else values)"
  by pat_completeness auto
termination
  by (relation "measure (\<lambda>(numPoints, i, values). numPoints - i)") auto

declare unpackPng_fill.simps [simp del]

definition unpackPng_rest :: "nat \<Rightarrow> nat \<Rightarrow> nat \<Rightarrow> real list \<Rightarrow> real list" where
  "unpackPng_rest len channels numPoints values =
     (if channels \<noteq> 0 \<and> len mod channels = 0
      then unpackPng_fill numPoints (len div channels) values
      else values)"

definition unpackPng :: "sharp_result \<Rightarrow> buffer \<Rightarrow> real \<Rightarrow> int \<Rightarrow> int \<Rightarrow> 8 word option \<Rightarrow> nat \<Rightarrow> real list" where
  "unpackPng decoded dataBuffer R E D bitsPerValue numPoints =
     (case decoded of
        SharpError \<Rightarrow> unpackPngFallback dataBuffer R E D numPoints
      | SharpRaw data channels \<Rightarrow>
          unpackPng_rest (length data) channels numPoints
            (unpackPng_loop data channels R E D bitsPerValue numPoints 0 (replicate numPoints 0)))"

section \<open>Section parser\<close>

text \<open>
  The parser raises \<open>Error\<close> with a message; the runtime raises \<open>RangeError\<close>. Each
  is a value of the model:
  \<^item> \<open>InvalidFormat\<close>: "Invalid GRIB2 file: missing GRIB magic number";
  \<^item> \<open>UnsupportedEdition e\<close>: "Unsupported GRIB edition: e";
  \<^item> \<open>ExpectedSection n s\<close>: "Expected section n, got section s";
  \<^item> \<open>MissingSection n\<close>: "Could not find Section n";
  \<^item> \<open>UnsupportedPacking t\<close>: "Unsupported data representation template: t";
  \<^item> \<open>RangeError\<close>: a read past the end of the buffer by \<open>readBigUInt64BE\<close> or by the
    \<open>DataView\<close> of \<open>readFloat32\<close>, \<open>toISOString\<close> of an invalid date, or a negative
    typed-array length.
\<close>

datatype error =
    InvalidFormat
  | UnsupportedEdition "8 word option"
  | ExpectedSection nat "8 word option"
  | MissingSection nat
  | UnsupportedPacking int
  | RangeError

record section0 =
  discipline :: "8 word option"
  edition :: "8 word"
  totalLength :: nat

text \<open>
  \<^verbatim>\<open>const magic = buffer.slice(0, 4).toString("ascii");
  if (magic !== "GRIB") throw new Error("Invalid GRIB2 file: missing GRIB magic number");\<close>
  Node's \<open>Buffer.toString("ascii")\<close> clears the highest bit of each byte before
  decoding it; a buffer shorter than four bytes gives a shorter string.
  \<open>readBigUInt64BE(8)\<close> raises a \<open>RangeError\<close> unless the buffer has 16 bytes.
\<close>

definition asciiSlice :: "buffer \<Rightarrow> nat \<Rightarrow> 8 word list" where
  "asciiSlice buffer n = map (\<lambda>b. b AND 0x7F) (take n buffer)"

definition parseSection0 :: "buffer \<Rightarrow> error + section0" where
  "parseSection0 buffer =
     (let magic = asciiSlice buffer 4
      in if magic \<noteq> [0x47, 0x52, 0x49, 0x42] then Inl InvalidFormat
         else
           (let edition = byteAt buffer 7
            in if edition \<noteq> Some 2 then Inl (UnsupportedEdition edition)
               else if length buffer < 16 then Inl RangeError
               else Inr \<lparr> discipline = byteAt buffer 6, edition = 2,
                          totalLength = be_nat (take 8 (drop 8 buffer)) \<rparr>))"

text \<open>
  The reference time is kept as the six fields given to \<open>Date.UTC\<close>. A field read past
  the end of the buffer is \<open>undefined\<close> and makes the date invalid (\<open>None\<close>); with all
  six present the date is valid, the year being below 65536.
\<close>

type_synonym utc = "int \<times> 8 word \<times> 8 word \<times> 8 word \<times> 8 word \<times> 8 word"

definition DateUTC :: "int \<Rightarrow> 8 word option \<Rightarrow> 8 word option \<Rightarrow> 8 word option
    \<Rightarrow> 8 word option \<Rightarrow> 8 word option \<Rightarrow> utc option" where
  "DateUTC year month day hour minute second =
     (case (month, day, hour, minute, second) of
        (Some mo, Some d, Some h, Some mi, Some s) \<Rightarrow> Some (year, mo, d, h, mi, s)
      | _ \<Rightarrow> None)"

record section1 =
  s1_length :: int
  centerId :: int
  subCenterId :: int
  timestamp :: "utc option"

definition parseSection1 :: "buffer \<Rightarrow> int \<Rightarrow> error + section1" where
  "parseSection1 buffer offset =
     (let len = readUint buffer offset 4;
          sectionNum = byteAt buffer (offset + 4)
      in if sectionNum \<noteq> Some 1 then Inl (ExpectedSection 1 sectionNum)
         else Inr \<lparr> s1_length = len,
                    centerId = readUint buffer (offset + 5) 2,
                    subCenterId = readUint buffer (offset + 7) 2,
                    timestamp = DateUTC (readUint buffer (offset + 12) 2)
                      (byteAt buffer (offset + 14)) (byteAt buffer (offset + 15))
                      (byteAt buffer (offset + 16)) (byteAt buffer (offset + 17))
                      (byteAt buffer (offset + 18)) \<rparr>)"

record section3 =
  s3_length :: int
  s3_grid :: gridInfo

definition parseSection3 :: "buffer \<Rightarrow> int \<Rightarrow> error + section3" where
  "parseSection3 buffer offset =
     (let len = readUint buffer offset 4;
          sectionNum = byteAt buffer (offset + 4)
      in if sectionNum \<noteq> Some 3 then Inl (ExpectedSection 3 sectionNum)
         else
           (let numPoints = readUint buffer (offset + 6) 4;
                templateNum = readUint buffer (offset + 12) 2;
                gridInfo =
                  (if templateNum = 0 then parseGridTemplate0 buffer (offset + 14) numPoints
                   else if templateNum = 30 then parseGridTemplate30 buffer (offset + 14) numPoints
                   else \<lparr> grid_numPoints = numPoints, grid_templateNum = templateNum,
                          grid_width = None, grid_height = None,
                          grid_lat1 = None, grid_lon1 = None, grid_lat2 = None, grid_lon2 = None,
                          grid_dx = None, grid_dy = None,
                          grid_scanningMode = None, grid_bounds = None \<rparr>)
            in Inr \<lparr> s3_length = len, s3_grid = gridInfo \<rparr>))"

text \<open>
  \<open>readFloat32\<close> decodes four bytes as an IEEE-754 single; the decoding is a parameter
  \<open>f32\<close> of the model, with a finite result. The \<open>DataView\<close> raises a \<open>RangeError\<close>
  when the four bytes do not lie inside the underlying \<open>ArrayBuffer\<close>, which the model
  takes to be the buffer itself.
\<close>

definition readFloat32 :: "(8 word list \<Rightarrow> real) \<Rightarrow> buffer \<Rightarrow> int \<Rightarrow> error + real" where
  "readFloat32 f32 buffer offset =
     (if 0 \<le> offset \<and> offset + 4 \<le> int (length buffer)
      then Inr (f32 (take 4 (drop (nat offset) buffer)))
      else Inl RangeError)"

text \<open>
  The packing record of section 5 carries different fields for each template: the fields
  after the reference value, the two scale factors and \<open>bitsPerValue\<close> are single bytes
  (\<open>typeOfOriginalValues\<close>, \<open>typeOfCompression\<close>, \<open>targetCompressionRatio\<close>).
\<close>

datatype packing =
    PackSimple real int int "8 word option"
  | PackJpeg2000 real int int "8 word option" "8 word option" "8 word option" "8 word option"
  | PackPng real int int "8 word option" "8 word option"
  | PackRunLength "8 word option"
  | PackOther

record section5 =
  s5_length :: int
  numDataPoints :: int
  s5_templateNum :: int
  s5_packing :: packing

definition parseSection5 :: "(8 word list \<Rightarrow> real) \<Rightarrow> buffer \<Rightarrow> int \<Rightarrow> error + section5" where
  "parseSection5 f32 buffer offset =
     (let len = readUint buffer offset 4;
          sectionNum = byteAt buffer (offset + 4)
      in if sectionNum \<noteq> Some 5 then Inl (ExpectedSection 5 sectionNum)
         else
           (let numDataPoints = readUint buffer (offset + 5) 4;
                templateNum = readUint buffer (offset + 9) 2;
                E = readInt buffer (offset + 15) 2;
                D = readInt buffer (offset + 17) 2;
                bits = byteAt buffer (offset + 19);
                packingInfo =
                  (if templateNum = 0 then
                     (case readFloat32 f32 buffer (offset + 11) of
                        Inl e \<Rightarrow> Inl e
                      | Inr R \<Rightarrow> Inr (PackSimple R E D bits))
                   else if templateNum = 40 then
                     (case readFloat32 f32 buffer (offset + 11) of
                        Inl e \<Rightarrow> Inl e
                      | Inr R \<Rightarrow> Inr (PackJpeg2000 R E D bits (byteAt buffer (offset + 20))
                                   (byteAt buffer (offset + 21)) (byteAt buffer (offset + 22))))
                   else if templateNum = 41 then
                     (case readFloat32 f32 buffer (offset + 11) of
                        Inl e \<Rightarrow> Inl e
                      | Inr R \<Rightarrow> Inr (PackPng R E D bits (byteAt buffer (offset + 20))))
                   else if templateNum = 200 then Inr (PackRunLength (byteAt buffer (offset + 11)))
                   else Inr PackOther)
            in case packingInfo of
                 Inl e \<Rightarrow> Inl e
               | Inr p \<Rightarrow> Inr \<lparr> s5_length = len, numDataPoints = numDataPoints,
                                 s5_templateNum = templateNum, s5_packing = p \<rparr>))"

text \<open>
  \<open>Buffer.slice(start, end)\<close>: a negative index counts from the end, both are clamped
  to the buffer, and an end before the start gives the empty buffer.
\<close>

definition sliceIndex :: "nat \<Rightarrow> int \<Rightarrow> nat" where
  "sliceIndex n k = (if k < 0 then nat (max (int n + k) 0) else nat (min k (int n)))"

definition buffer_slice :: "buffer \<Rightarrow> int \<Rightarrow> int \<Rightarrow> buffer" where
  "buffer_slice buffer start stop =
     (let s = sliceIndex (length buffer) start; e = sliceIndex (length buffer) stop
      in take (e - s) (drop s buffer))"

record section7 =
  s7_length :: int
  s7_values :: "real list"

text \<open>
  Every unpacker allocates \<open>new Float32Array(numPoints)\<close>, which raises a \<open>RangeError\<close>
  for a negative length (inside the \<open>try\<close> of \<open>unpackPng\<close> it is caught and raised again by
  the fallback). The PNG decoder \<open>sharp\<close> is a parameter of the model.
\<close>

definition parseSection7 :: "(buffer \<Rightarrow> sharp_result) \<Rightarrow> buffer \<Rightarrow> int \<Rightarrow> section5 \<Rightarrow> gridInfo
    \<Rightarrow> error + section7" where
  "parseSection7 sharp buffer offset sec5 gridInfo =
     (let len = readUint buffer offset 4;
          sectionNum = byteAt buffer (offset + 4)
      in if sectionNum \<noteq> Some 7 then Inl (ExpectedSection 7 sectionNum)
         else
           (let dataOffset = offset + 5;
                dataLength = len - 5;
                dataBuffer = buffer_slice buffer dataOffset (dataOffset + dataLength);
                numPoints = grid_numPoints gridInfo
            in case s5_packing sec5 of
                 PackOther \<Rightarrow> Inl (UnsupportedPacking (s5_templateNum sec5))
               | p \<Rightarrow>
                   if numPoints < 0 then Inl RangeError
                   else Inr \<lparr> s7_length = len,
                              s7_values =
                                (case p of
                                   PackSimple R E D bits \<Rightarrow>
                                     unpackSimple dataBuffer R E D bits (nat numPoints)
                                 | PackJpeg2000 R E D bits t c r \<Rightarrow>
                                     unpackJpeg2000Fallback dataBuffer R E D (nat numPoints)
                                 | PackPng R E D bits t \<Rightarrow>
                                     unpackPng (sharp dataBuffer) dataBuffer R E D bits (nat numPoints)
                                 | PackRunLength t \<Rightarrow> unpackRunLength dataBuffer (nat numPoints)
                                 | PackOther \<Rightarrow> []) \<rparr>))"

text \<open>
  \<^verbatim>\<open>function findSection(buffer, startOffset, sectionNum) {
    let offset = startOffset;
    while (offset < buffer.length - 4) {
      const length = readUint(buffer, offset, 4);
      const section = buffer[offset + 4];
      if (section === sectionNum) return offset;
      if (length === 0 || section === 8 || section > 8) break;
      offset += length; }
    return -1; }\<close>
  A length with its top bit set is read as a negative number and moves the offset
  backwards, so the scan need not end: the result is \<open>None\<close> when it does not.
\<close>

partial_function (option) findSection :: "buffer \<Rightarrow> int \<Rightarrow> 8 word \<Rightarrow> int option" where
  "findSection buffer offset sectionNum =
     (if offset < int (length buffer) - 4
      then
        (let len = readUint buffer offset 4;
             section = byteAt buffer (offset + 4)
         in if section = Some sectionNum then Some offset
            else if len = 0 \<or> section = Some 8 \<or> (case section of None \<Rightarrow> False | Some s \<Rightarrow> s > 8)
              then Some (- 1)
            else findSection buffer (offset + len) sectionNum)
      else Some (- 1))"

record radarData =
  rd_timestamp :: utc
  rd_width :: "int option"
  rd_height :: "int option"
  rd_bounds :: "bounds option"
  rd_scanningMode :: "8 word option"
  rd_values :: "real list"

text \<open>
  \<open>parseGrib2\<close>. \<open>section1.timestamp.toISOString()\<close>, in the log line after section 1,
  raises a \<open>RangeError\<close> for an invalid date. The result is \<open>None\<close> when a forward scan
  does not end.
\<close>

definition parseGrib2 :: "(8 word list \<Rightarrow> real) \<Rightarrow> (buffer \<Rightarrow> sharp_result) \<Rightarrow> buffer
    \<Rightarrow> (error + radarData) option" where
  "parseGrib2 f32 sharp buffer =
     (case parseSection0 buffer of
        Inl e \<Rightarrow> Some (Inl e)
      | Inr sec0 \<Rightarrow>
     (case parseSection1 buffer 16 of
        Inl e \<Rightarrow> Some (Inl e)
      | Inr sec1 \<Rightarrow>
     (case timestamp sec1 of
        None \<Rightarrow> Some (Inl RangeError)
      | Some ts \<Rightarrow>
     (let offset = 16 + s1_length sec1;
          offset = (if byteAt buffer (offset + 4) = Some 2
                    then offset + readUint buffer offset 4 else offset)
      in
     (case findSection buffer offset 3 of
        None \<Rightarrow> None
      | Some section3Offset \<Rightarrow>
     if section3Offset = - 1 then Some (Inl (MissingSection 3))
     else
     (case parseSection3 buffer section3Offset of
        Inl e \<Rightarrow> Some (Inl e)
      | Inr sec3 \<Rightarrow>
     (case findSection buffer (section3Offset + s3_length sec3) 5 of
        None \<Rightarrow> None
      | Some section5Offset \<Rightarrow>
     if section5Offset = - 1 then Some (Inl (MissingSection 5))
     else
     (case parseSection5 f32 buffer section5Offset of
        Inl e \<Rightarrow> Some (Inl e)
      | Inr sec5 \<Rightarrow>
     (case findSection buffer (section5Offset + s5_length sec5) 7 of
        None \<Rightarrow> None
      | Some section7Offset \<Rightarrow>
     if section7Offset = - 1 then Some (Inl (MissingSection 7))
     else
     (case parseSection7 sharp buffer section7Offset sec5 (s3_grid sec3) of
        Inl e \<Rightarrow> Some (Inl e)
      | Inr sec7 \<Rightarrow>
          Some (Inr \<lparr> rd_timestamp = ts,
                      rd_width = grid_width (s3_grid sec3),
                      rd_height = grid_height (s3_grid sec3),
                      rd_bounds = grid_bounds (s3_grid sec3),
                      rd_scanningMode = grid_scanningMode (s3_grid sec3),
                      rd_values = s7_values sec7 \<rparr>)))))))))))"

section \<open>Properties\<close>

subsection \<open>Run-length unpacking\<close>

lemma unpackRunLength_run_eq:
  assumes "values = pre @ replicate (numPoints - i) (- 999)" and "length pre = i" and "i \<le> numPoints"
  shows "unpackRunLength_run values i j count numPoints dbz =
     (pre @ replicate (min (count - j) (numPoints - i)) dbz
          @ replicate (numPoints - i - min (count - j) (numPoints - i)) (- 999),
      i + min (count - j) (numPoints - i))"
  using assms
proof (induction "values" i j count numPoints dbz arbitrary: pre rule: unpackRunLength_run.induct)
  case (1 vals i j count numPoints dbz)
  show ?case
  proof (cases "j < count \<and> i < numPoints")
    case True
    have upd: "vals[i := dbz] = (pre @ [dbz]) @ replicate (numPoints - Suc i) (- 999)"
      using 1(2,3) True by (cases "numPoints - i") (auto simp: list_update_append)
    have len: "length (pre @ [dbz]) = Suc i" using 1(3) by simp
    have le: "Suc i \<le> numPoints" using True by simp
    have m: "min (count - j) (numPoints - i) = Suc (min (count - Suc j) (numPoints - Suc i))"
      using True by arith
    show ?thesis
      apply (subst unpackRunLength_run.simps)
      using True "1.IH"[OF True upd len le] m by (simp add: replicate_app_Cons_same)
  next
    case False
    then show ?thesis using 1(2,3,4)
      by (subst unpackRunLength_run.simps) (auto simp: min_def)
  qed
qed

lemma rle_expand_Cons2:
  "rle_expand (v # c # rest) = replicate (unat c) (rle_dbz v) @ rle_expand rest"
  by (simp add: rle_expand_def)

lemma rle_expand_short: "length xs \<le> 1 \<Longrightarrow> rle_expand xs = []"
  by (cases xs rule: rle_pairs.cases) (auto simp: rle_expand_def)

lemma drop_two_nth: "Suc pos < length xs \<Longrightarrow> drop pos xs = xs ! pos # xs ! Suc pos # drop (Suc (Suc pos)) xs"
  by (simp add: Cons_nth_drop_Suc Suc_lessD)

lemma unpackRunLength_loop_eq:
  assumes "values = pre @ replicate (numPoints - i) (- 999)" and "length pre = i" and "i \<le> numPoints"
  shows "unpackRunLength_loop dataBuffer numPoints pos i values =
     take numPoints (pre @ rle_expand (drop pos dataBuffer) @ replicate numPoints (- 999))"
  using assms
proof (induction dataBuffer numPoints pos i "values" arbitrary: pre rule: unpackRunLength_loop.induct)
  case (1 dataBuffer numPoints pos i vals)
  show ?case
  proof (cases "int pos < int (length dataBuffer) - 1 \<and> i < numPoints")
    case True
    define v where "v = dataBuffer ! pos"
    define c where "c = dataBuffer ! (pos + 1)"
    define k where "k = min (unat c) (numPoints - i)"
    define pre' where "pre' = pre @ replicate k (rle_dbz v)"
    define vals' where "vals' = pre' @ replicate (numPoints - (i + k)) (- 999)"
    have "Suc pos < length dataBuffer" using True by linarith
    then have dr: "drop pos dataBuffer = v # c # drop (pos + 2) dataBuffer"
      unfolding v_def c_def using drop_two_nth by simp
    have run: "unpackRunLength_run vals i 0 (unat c) numPoints (rle_dbz v) = (vals', i + k)"
      using unpackRunLength_run_eq[OF 1(2,3,4), of 0 "unat c" "rle_dbz v"]
      by (simp add: vals'_def pre'_def k_def)
    have len': "length pre' = i + k" using 1(3) by (simp add: pre'_def)
    have le': "i + k \<le> numPoints" using 1(4) by (simp add: k_def)
    have IH: "unpackRunLength_loop dataBuffer numPoints (pos + 2) (i + k) vals' =
       take numPoints (pre' @ rle_expand (drop (pos + 2) dataBuffer) @ replicate numPoints (- 999))"
    proof (rule "1.IH"[OF True refl refl refl refl, of vals' "i + k" pre'])
      show "(vals', i + k) = unpackRunLength_run vals i 0 (unat (dataBuffer ! (pos + 1))) numPoints
              (if dataBuffer ! pos = 0 then - 999 else real (unat (dataBuffer ! pos)) * 0.5 - 33)"
        using run by (simp add: v_def c_def rle_dbz_def)
      show "vals' = pre' @ replicate (numPoints - (i + k)) (- 999)" by (simp add: vals'_def)
      show "length pre' = i + k" by (rule len')
      show "i + k \<le> numPoints" by (rule le')
    qed
    have "unpackRunLength_loop dataBuffer numPoints pos i vals =
          unpackRunLength_loop dataBuffer numPoints (pos + 2) (i + k) vals'"
      apply (subst unpackRunLength_loop.simps)
      using True run by (simp add: Let_def v_def c_def rle_dbz_def)
    also have "\<dots> = take numPoints (pre' @ rle_expand (drop (pos + 2) dataBuffer) @ replicate numPoints (- 999))"
      by (rule IH)
    also have "\<dots> = take numPoints (pre @ rle_expand (drop pos dataBuffer) @ replicate numPoints (- 999))"
    proof (cases "unat c \<le> numPoints - i")
      case True
      then show ?thesis by (simp add: dr rle_expand_Cons2 pre'_def k_def min_def)
    next
      case False
      then have "k = numPoints - i" by (simp add: k_def)
      then show ?thesis using False 1(3,4)
        by (simp add: dr rle_expand_Cons2 pre'_def min_def)
    qed
    finally show ?thesis .
  next
    case False
    have "unpackRunLength_loop dataBuffer numPoints pos i vals = vals"
      by (subst unpackRunLength_loop.simps) (simp only: False if_False)
    moreover have "take numPoints (pre @ rle_expand (drop pos dataBuffer) @ replicate numPoints (- 999)) = vals"
    proof (cases "i < numPoints")
      case True
      with False have "length (drop pos dataBuffer) \<le> 1" by simp
      then show ?thesis using 1(2,3,4) by (simp add: rle_expand_short)
    next
      case False
      then show ?thesis using 1(2,3,4) by simp
    qed
    ultimately show ?thesis by simp
  qed
qed


text \<open>
  C1 (as amended). Template 200 consumes the data buffer as (value byte, count byte)
  pairs and emits, for each pair, count copies of \<open>-999\<close> when the value byte is 0 and
  of \<open>value * 0.5 - 33\<close> otherwise, until the field is full or the buffer has no further
  pair; cells never reached stay \<open>-999\<close>. For data \<open>[0x00, 0x02, 0x80, 0x02]\<close> and four
  points the field is \<open>[-999, -999, 31, 31]\<close>: the byte \<open>0x80\<close> is 128, and
  \<open>128 * 0.5 - 33 = 31\<close>.
\<close>

theorem C1_unpackRunLength_pairs:
  "unpackRunLength dataBuffer numPoints = rle_field dataBuffer numPoints
   \<and> unpackRunLength [0x00, 0x02, 0x80, 0x02] 4 = [- 999, - 999, 31, 31]"
proof
  show "unpackRunLength dataBuffer numPoints = rle_field dataBuffer numPoints"
    unfolding unpackRunLength_def rle_field_def
    using unpackRunLength_loop_eq[of "replicate numPoints (- 999)" "[]" numPoints 0 dataBuffer 0]
    by simp
  show "unpackRunLength [0x00, 0x02, 0x80, 0x02] 4 = [- 999, - 999, 31, 31]"
    by code_simp
qed

theorem C1_unpackRunLength_pairs_witness:
  "unpackRunLength [0x00, 0x02, 0x40, 0x03, 0x07] 4 = [- 999, - 999, - 1, - 1]"
proof -
  have "rle_field [0x00, 0x02, 0x40, 0x03, 0x07] 4 = [- 999, - 999, - 1, - 1]"
    by code_simp
  then show ?thesis
    using C1_unpackRunLength_pairs[of "[0x00, 0x02, 0x40, 0x03, 0x07]" 4] by simp
qed

text \<open>
  The field the claim names for \<open>[0x00, 0x02, 0x80, 0x02]\<close> is not the one decoded.
\<close>

theorem C1_example_counterexample:
  "unpackRunLength [0x00, 0x02, 0x80, 0x02] 4 \<noteq> [- 999, - 999, - 1, - 1]"
  by code_simp

subsection \<open>Color mapper\<close>



















subsection \<open>Raster renderer\<close>

lemma renderRow_length: "length (renderRow vs w h sm j i px) = length px"
proof (induction vs w h sm j i px rule: renderRow.induct)
  case (1 vs w h sm j i px)
  then show ?case by (subst renderRow.simps) simp
qed

lemma renderRow_nth:
  "m < length px \<Longrightarrow> renderRow vs w h sm j i px ! m =
     (if j * w + i \<le> m \<and> m < j * w + w then getColorForDbz (cellOrMissing vs (srcIdx w h sm j (m - j * w))) else px ! m)"
proof (induction vs w h sm j i px rule: renderRow.induct)
  case (1 vs w h sm j i px)
  show ?case
  proof (cases "i < w")
    case True
    show ?thesis
    proof (cases "m = j * w + i")
      case eq: True
      then show ?thesis
        using True 1 by (subst renderRow.simps) simp
    next
      case False
      then show ?thesis
        using True 1 by (subst renderRow.simps) auto
    qed
  next
    case False
    then show ?thesis by (subst renderRow.simps) auto
  qed
qed

lemma renderRows_length: "length (renderRows vs w h sm j px) = length px"
proof (induction vs w h sm j px rule: renderRows.induct)
  case (1 vs w h sm j px)
  then show ?case by (subst renderRows.simps) (simp add: renderRow_length)
qed

lemma renderRows_nth:
  "m < length px \<Longrightarrow> renderRows vs w h sm j px ! m =
     (if j * w \<le> m \<and> m < h * w then getColorForDbz (cellOrMissing vs (srcIdx w h sm (m div w) (m mod w))) else px ! m)"
proof (induction vs w h sm j px rule: renderRows.induct)
  case (1 vs w h sm j px)
  show ?case
  proof (cases "j < h")
    case True
    have IH: "renderRows vs w h sm (Suc j) (renderRow vs w h sm j 0 px) ! m =
     (if Suc j * w \<le> m \<and> m < h * w then getColorForDbz (cellOrMissing vs (srcIdx w h sm (m div w) (m mod w)))
      else renderRow vs w h sm j 0 px ! m)"
      using "1.IH"[OF True] "1.prems" by (simp add: renderRow_length)
    have row: "m div w = j \<and> m mod w = m - j * w" if "j * w \<le> m" "m < j * w + w"
    proof -
      have d: "m div w = j"
        by (rule div_nat_eqI) (use that in \<open>simp_all add: mult.commute\<close>)
      then show ?thesis by (simp add: modulo_nat_def mult.commute)
    qed
    have "Suc j * w \<le> h * w" using True by (simp only: mult_le_mono1 Suc_leI)
    then have lt: "m < j * w + w \<Longrightarrow> m < h * w" by simp
    show ?thesis
      apply (subst renderRows.simps)
      using True IH "1.prems" row lt by (auto simp: renderRow_nth)
  next
    case False
    then have "h * w \<le> j * w" by simp
    then have "\<not> (j * w \<le> m \<and> m < h * w)" by linarith
    then show ?thesis using False by (subst renderRows.simps) (simp only: if_False)
  qed
qed

lemma ucast_and_exp7: "(ucast (b::8 word) AND (128::32 word) = 0) = (\<not> bit b 7)"
proof -
  have "(128::32 word) = 2 ^ 7" by simp
  then show ?thesis by (simp only: and_exp_eq_0_iff_not_bit bit_ucast_iff) simp
qed

lemma ucast_and_exp6: "(ucast (b::8 word) AND (64::32 word) = 0) = (\<not> bit b 6)"
proof -
  have "(64::32 word) = 2 ^ 6" by simp
  then show ?thesis by (simp only: and_exp_eq_0_iff_not_bit bit_ucast_iff) simp
qed

lemma and_exp7: "((b::8 word) AND 0x80 = 0) = (\<not> bit b 7)"
proof -
  have "(0x80::8 word) = 2 ^ 7" by simp
  then show ?thesis by (simp only: and_exp_eq_0_iff_not_bit)
qed

lemma and_exp6: "((b::8 word) AND 0x40 = 0) = (\<not> bit b 6)"
proof -
  have "(0x40::8 word) = 2 ^ 6" by simp
  then show ?thesis by (simp only: and_exp_eq_0_iff_not_bit)
qed

lemma scanWestToEast_Some: "scanWestToEast (Some b) = (b AND 0x80 = 0)"
  unfolding scanWestToEast_def js_and_def undef0_def ToInt32_def and_exp7
  by (simp add: signed_eq_0_iff ucast_and_exp7)

lemma scanNorthToSouth_Some: "scanNorthToSouth (Some b) = (b AND 0x40 = 0)"
  unfolding scanNorthToSouth_def js_and_def undef0_def ToInt32_def and_exp6
  by (simp add: signed_eq_0_iff ucast_and_exp6)


lemma renderPixels_nth:
  assumes "i < w" and "j < h"
  shows "renderPixels vs w h sm ! (j * w + i) = getColorForDbz (cellOrMissing vs (srcIdx w h sm j i))"
proof -
  have "j * w + i < Suc j * w" using assms by simp
  also have "\<dots> \<le> h * w" using assms by (simp only: mult_le_mono1 Suc_leI)
  finally have lt: "j * w + i < h * w" .
  then show ?thesis
    unfolding renderPixels_def using assms
    by (simp add: renderRows_nth mult.commute)
qed

lemma renderPixels_length: "length (renderPixels vs w h sm) = w * h"
  by (simp add: renderPixels_def renderRows_length)


lemma renderPixels_example:
  "renderPixels [A, B, C, D] 2 2 (Some 0xC0) =
     map (\<lambda>v. getColorForDbz (cellOrMissing [v] 0)) [D, C, B, A]"
proof -
  have w: "\<not> scanWestToEast (Some 0xC0)" "\<not> scanNorthToSouth (Some 0xC0)"
    by (simp_all add: scanWestToEast_Some scanNorthToSouth_Some)
  have l: "length (renderPixels [A, B, C, D] 2 2 (Some 0xC0)) = 4"
    by (simp add: renderPixels_length)
  have n: "renderPixels [A, B, C, D] 2 2 (Some 0xC0) ! (j * 2 + i) =
      getColorForDbz (cellOrMissing [A, B, C, D] (srcIdx 2 2 (Some 0xC0) j i))"
    if "i < 2" "j < 2" for i j
    using that by (rule renderPixels_nth)
  have c: "cellOrMissing [A, B, C, D] 3 = cellOrMissing [D] 0"
      "cellOrMissing [A, B, C, D] 2 = cellOrMissing [C] 0"
      "cellOrMissing [A, B, C, D] (Suc 0) = cellOrMissing [B] 0"
      "cellOrMissing [A, B, C, D] 0 = cellOrMissing [A] 0"
    by (simp_all add: cellOrMissing_def)
  have "renderPixels [A, B, C, D] 2 2 (Some 0xC0) ! 0 = getColorForDbz (cellOrMissing [D] 0)"
    using n[of 0 0] by (simp add: srcIdx_def w c)
  moreover have "renderPixels [A, B, C, D] 2 2 (Some 0xC0) ! 1 = getColorForDbz (cellOrMissing [C] 0)"
    using n[of 1 0] by (simp add: srcIdx_def w c)
  moreover have "renderPixels [A, B, C, D] 2 2 (Some 0xC0) ! 2 = getColorForDbz (cellOrMissing [B] 0)"
    using n[of 0 1] by (simp add: srcIdx_def w c)
  moreover have "renderPixels [A, B, C, D] 2 2 (Some 0xC0) ! 3 = getColorForDbz (cellOrMissing [A] 0)"
    using n[of 1 1] by (simp add: srcIdx_def w c)
  ultimately show ?thesis
    using l by (auto simp: list_eq_iff_nth_eq less_Suc_eq numeral_eq_Suc)
qed

text \<open>
  C4. For every width, height, field and scanning-mode byte, output pixel \<open>(i, j)\<close>, at
  index \<open>j * width + i\<close> of the row-major pixel buffer, is the color of the source cell
  \<open>src_y * width + src_x\<close>, with \<open>src_x = i\<close> when bit \<open>0x80\<close> is clear and
  \<open>width - 1 - i\<close> otherwise, and \<open>src_y = j\<close> when bit \<open>0x40\<close> is clear and
  \<open>height - 1 - j\<close> otherwise. For scanning mode \<open>0xC0\<close> and a 2x2 field
  \<open>[A, B, C, D]\<close> the pixels come from the cells in the order \<open>[D, C, B, A]\<close>.
\<close>

theorem C4_renderRadarPng_orientation:
  "(i < width \<and> j < height \<longrightarrow>
      renderPixels vals width height (Some scanning_mode) ! (j * width + i) =
        getColorForDbz (cellOrMissing vals
          ((if scanning_mode AND 0x40 = 0 then j else height - 1 - j) * width
           + (if scanning_mode AND 0x80 = 0 then i else width - 1 - i))))
   \<and> length (renderPixels vals width height (Some scanning_mode)) = width * height
   \<and> renderPixels [A, B, C, D] 2 2 (Some 0xC0) =
        map (\<lambda>v. getColorForDbz (cellOrMissing [v] 0)) [D, C, B, A]"
  by (simp add: renderPixels_nth srcIdx_def scanWestToEast_Some scanNorthToSouth_Some
        renderPixels_length renderPixels_example)

theorem C4_renderRadarPng_orientation_witness:
  "renderPixels [Fin 10, Fin 20, Fin 30, Fin 40, Fin 50, Fin 60] 3 2 (Some 0x80) ! (1 * 3 + 0)
     = (255, 0, 200, 255)
   \<and> renderPixels [Fin 10, Fin 20, Fin 30, Fin 40] 2 2 (Some 0xC0)
     = [(255, 192, 0, 255), (0, 144, 0, 255), (0, 230, 0, 240), (0, 160, 180, 200)]"
proof -
  have c: "getColorFinite 60 = (255, 0, 200, 255)" "getColorFinite 40 = (255, 192, 0, 255)"
    "getColorFinite 30 = (0, 144, 0, 255)" "getColorFinite 20 = (0, 230, 0, 240)"
    "getColorFinite 10 = (0, 160, 180, 200)"
    by code_simp+
  have b: "(0x80 :: 8 word) AND 0x40 = 0" "(0x80 :: 8 word) AND 0x80 \<noteq> 0"
    by simp_all
  note t = C4_renderRadarPng_orientation
  have "renderPixels [Fin 10, Fin 20, Fin 30, Fin 40, Fin 50, Fin 60] 3 2 (Some 0x80) ! (1 * 3 + 0)
     = (255, 0, 200, 255)"
    using t[where i = 0 and j = 1 and width = 3 and height = 2 and scanning_mode = "0x80"
              and vals = "[Fin 10, Fin 20, Fin 30, Fin 40, Fin 50, Fin 60]"] b
    by (simp add: cellOrMissing_def c)
  moreover have "renderPixels [Fin 10, Fin 20, Fin 30, Fin 40] 2 2 (Some 0xC0)
     = [(255, 192, 0, 255), (0, 144, 0, 255), (0, 230, 0, 240), (0, 160, 180, 200)]"
    using t[where A = "Fin 10" and B = "Fin 20" and C = "Fin 30" and D = "Fin 40"]
    by (simp add: cellOrMissing_def c)
  ultimately show ?thesis by simp
qed



subsection \<open>Byte readers\<close>

lemma js_step_word:
  "js_or (js_shl (sint (w::32 word)) 8) (undef0 (Some b)) = sint (w * 256 + ucast b)"
proof -
  have "push_bit 8 w + (ucast b :: 32 word) = push_bit 8 w OR ucast b"
    by (rule disjunctive_add) (auto simp: bit_push_bit_iff bit_ucast_iff dest: bit_imp_le_length)
  then have "push_bit 8 w OR (ucast b :: 32 word) = w * 256 + ucast b"
    by (simp add: push_bit_eq_mult)
  then show ?thesis
    by (simp add: js_or_def js_shl_def ToInt32_def undef0_def)
qed

lemma readUint_loop_word:
  assumes "0 \<le> offset" and "offset + int n \<le> int (length buffer)" and "i \<le> n"
    and "v = sint (w :: 32 word)"
  shows "readUint_loop buffer offset n i v =
     sint (foldl (\<lambda>w b. w * 256 + ucast b) w (take (n - i) (drop (nat offset + i) buffer)))"
  using assms
proof (induction buffer offset n i v arbitrary: w rule: readUint_loop.induct)
  case (1 buffer offset bytes i v)
  show ?case
  proof (cases "i < bytes")
    case True
    have lt: "nat offset + i < length buffer" using True 1(2,3) by linarith
    then have at: "byteAt buffer (offset + int i) = Some (buffer ! (nat offset + i))"
      using 1(2) by (simp add: byteAt_def nat_add_distrib)
    have dr: "take (bytes - i) (drop (nat offset + i) buffer) =
        buffer ! (nat offset + i) # take (bytes - Suc i) (drop (nat offset + Suc i) buffer)"
    proof -
      have d: "drop (nat offset + i) buffer = buffer ! (nat offset + i) # drop (Suc (nat offset + i)) buffer"
        using lt by (simp add: Cons_nth_drop_Suc)
      have e: "bytes - i = Suc (bytes - Suc i)" using True by simp
      show ?thesis by (simp add: d e)
    qed
    have step: "js_or (js_shl v 8) (undef0 (byteAt buffer (offset + int i))) =
        sint (w * 256 + ucast (buffer ! (nat offset + i)))"
      by (simp add: at 1(5) js_step_word)
    have le: "Suc i \<le> bytes" using True by simp
    have "readUint_loop buffer offset bytes i v =
        readUint_loop buffer offset bytes (Suc i)
          (js_or (js_shl v 8) (undef0 (byteAt buffer (offset + int i))))"
      using True by (subst readUint_loop.simps) simp
    also have "\<dots> = sint (foldl (\<lambda>w b. w * 256 + ucast b) (w * 256 + ucast (buffer ! (nat offset + i)))
         (take (bytes - Suc i) (drop (nat offset + Suc i) buffer)))"
      by (rule "1.IH"[OF True 1(2) 1(3) le step])
    finally show ?thesis by (simp add: dr)
  next
    case False
    then show ?thesis using 1(4,5) by (subst readUint_loop.simps) simp
  qed
qed

lemma foldl_word_of_nat:
  "foldl (\<lambda>w b. w * 256 + ucast b) (word_of_nat v :: 32 word) (bs :: 8 word list) =
     word_of_nat (foldl (\<lambda>v b. v * 256 + unat b) v bs)"
proof (induction bs arbitrary: v)
  case Nil
  then show ?case by simp
next
  case (Cons b bs)
  have "word_of_nat v * 256 + ucast b = (word_of_nat (v * 256 + unat b) :: 32 word)"
    by simp
  then show ?case using Cons.IH[of "v * 256 + unat b"] by simp
qed

lemma readUint_word:
  assumes "0 \<le> offset" and "offset + int n \<le> int (length buffer)"
  shows "readUint buffer offset n =
     sint (word_of_nat (be_nat (take n (drop (nat offset) buffer))) :: 32 word)"
  using readUint_loop_word[OF assms, of 0 0 0] foldl_word_of_nat[of 0]
  by (simp add: readUint_def be_nat_def)

lemma be_nat_snoc: "be_nat (bs @ [b]) = be_nat bs * 256 + unat b"
  by (simp add: be_nat_def)

lemma be_nat_less: "be_nat bs < 256 ^ length bs"
proof (induction bs rule: rev_induct)
  case Nil
  then show ?case by (simp add: be_nat_def)
next
  case (snoc b bs)
  have "unat b < 256" using unsigned_less[of b] by simp
  then have "be_nat bs * 256 + unat b < (be_nat bs + 1) * 256" by simp
  also have "\<dots> \<le> 256 ^ length bs * 256" using snoc by (intro mult_le_mono1) simp
  finally show ?case by (simp add: be_nat_snoc)
qed

lemma foldl_be_nat:
  "foldl (\<lambda>v b. v * 256 + unat b) v (bs :: 8 word list) = v * 256 ^ length bs + be_nat bs"
proof (induction bs rule: rev_induct)
  case Nil
  then show ?case by (simp add: be_nat_def)
next
  case (snoc b bs)
  then show ?case by (simp add: be_nat_snoc algebra_simps)
qed

lemma be_nat_Cons: "be_nat (b # bs) = unat b * 256 ^ length bs + be_nat bs"
  using foldl_be_nat[of "unat b" bs] by (simp add: be_nat_def)

lemma sint_word_of_nat_small:
  "u < 2 ^ 31 \<Longrightarrow> sint (word_of_nat u :: 32 word) = int u"
  by (simp add: signed_of_nat signed_take_bit_int_eq_self)

lemma js_and_sint: "js_and (sint (a::32 word)) (sint (b::32 word)) = sint (a AND b)"
  by (simp add: js_and_def ToInt32_def)

lemma js_shl_one: "k < 32 \<Longrightarrow> js_shl 1 (int k) = sint (2 ^ k :: 32 word)"
  by (simp add: js_shl_def ToInt32_def)

lemma js_and_signBit:
  "k < 32 \<Longrightarrow> (js_and (sint (w::32 word)) (js_shl 1 (int k)) \<noteq> 0) = bit w k"
  by (simp add: js_shl_one js_and_sint signed_eq_0_iff and_exp_eq_0_iff_not_bit)

lemma sint_eq_uint_small:
  assumes "uint (x::32 word) < 2 ^ 31"
  shows "sint x = uint x"
proof -
  have "- (2 ^ 31) \<le> (0::int)" by simp
  also have "0 \<le> uint x" by simp
  finally have lo: "- (2 ^ 31) \<le> uint x" .
  have "sint x = signed_take_bit 31 (uint x)" by (simp add: sint_uint)
  also have "\<dots> = uint x" by (rule signed_take_bit_int_eq_self[OF lo assms])
  finally show ?thesis .
qed

lemma sint_take_bit_small:
  assumes "k < 32"
  shows "sint (take_bit k (w::32 word)) = uint (take_bit k w)"
proof -
  have "uint (take_bit k w) = take_bit k (uint w)"
    by (simp add: unsigned_take_bit_eq)
  then have "uint (take_bit k w) < 2 ^ k"
    by (simp only: take_bit_int_less_exp)
  also have "(2::int) ^ k \<le> 2 ^ 31" using assms by (intro power_increasing) simp_all
  finally show ?thesis by (rule sint_eq_uint_small)
qed

lemma js_and_magnitude:
  assumes "k < 32"
  shows "js_and (sint (w::32 word)) (js_shl 1 (int k) - 1) = uint (take_bit k w)"
proof -
  have "ToInt32 (sint (2 ^ k :: 32 word) - 1) = mask k"
    by (simp add: ToInt32_def mask_eq_decr_exp)
  then have "js_and (sint w) (js_shl 1 (int k) - 1) = sint (w AND mask k)"
    using assms by (simp add: js_and_def js_shl_one) (simp add: ToInt32_def)
  then show ?thesis
    using assms by (simp add: sint_take_bit_small flip: take_bit_eq_mask)
qed

lemma readInt_word:
  assumes "1 \<le> n" and "n \<le> 4" and "0 \<le> offset" and "offset + int n \<le> int (length buffer)"
  shows "readInt buffer offset n =
     (let w = word_of_nat (be_nat (take n (drop (nat offset) buffer))) :: 32 word
      in if bit w (8 * n - 1) then - uint (take_bit (8 * n - 1) w) else sint w)"
proof -
  have k: "8 * n - 1 < 32" using assms by simp
  have e: "int n * 8 - 1 = int (8 * n - 1)" using assms by simp
  show ?thesis
    unfolding readInt_def readUint_word[OF assms(3,4)] Let_def e
    by (simp only: js_and_signBit[OF k] js_and_magnitude[OF k])
qed

lemma drop_bit_be: "r < 2 ^ (8 * L) \<Longrightarrow> drop_bit (8 * L) (a * 256 ^ L + r) = (a::nat)"
proof -
  assume r: "r < 2 ^ (8 * L)"
  have p: "(256::nat) ^ L = 2 ^ (8 * L)" by (simp add: power_mult)
  show ?thesis unfolding p drop_bit_eq_div using r by simp
qed

lemma bit_be_nat_top:
  assumes "bs \<noteq> []"
  shows "bit (be_nat bs) (8 * length bs - 1) = bit (hd bs) 7"
proof -
  obtain b rest where bs: "bs = b # rest" using assms by (cases bs) auto
  have r: "be_nat rest < 2 ^ (8 * length rest)"
    using be_nat_less[of rest] by (simp add: power_mult)
  have "drop_bit (8 * length rest) (be_nat bs) = unat b"
    unfolding bs be_nat_Cons by (rule drop_bit_be[OF r])
  then have "bit (unat b) 7 = bit (be_nat bs) (8 * length rest + 7)"
    using bit_drop_bit_eq[of "8 * length rest" "be_nat bs"] by simp
  then show ?thesis by (simp add: bs bit_unsigned_iff add.commute)
qed

lemma nat_below_top_bit:
  assumes "u < 2 ^ Suc k" and "\<not> bit u k"
  shows "(u::nat) < 2 ^ k"
proof -
  have "u = take_bit (Suc k) u" using assms(1) by (simp add: take_bit_nat_eq_self)
  also have "\<dots> = take_bit k u" using assms(2) by (simp add: take_bit_Suc_from_most)
  finally have "u = take_bit k u" .
  then show ?thesis by (metis take_bit_nat_less_exp)
qed

lemma readInt_sign_magnitude:
  assumes "1 \<le> n" and "n \<le> 4" and "0 \<le> offset" and "offset + int n \<le> int (length buffer)"
  shows "readInt buffer offset n =
     (let bs = take n (drop (nat offset) buffer); u = be_nat bs
      in if \<not> bit (hd bs) 7 then int u else - int (u AND (2 ^ (8 * n - 1) - 1)))"
proof -
  define bs where "bs = take n (drop (nat offset) buffer)"
  define u where "u = be_nat bs"
  define k where "k = 8 * n - 1"
  have len: "length bs = n" using assms by (simp add: bs_def)
  then have ne: "bs \<noteq> []" using assms(1) by auto
  have k: "k < 32" "Suc k = 8 * n" using assms by (simp_all add: k_def)
  have "u < 256 ^ n" using be_nat_less[of bs] by (simp add: u_def len)
  then have u1: "u < 2 ^ Suc k" by (simp add: k power_mult)
  also have "(2::nat) ^ Suc k \<le> 2 ^ 32" using k by (intro power_increasing) simp_all
  finally have u32: "u < 2 ^ 32" .
  have top: "bit u k = bit (hd bs) 7"
    using bit_be_nat_top[OF ne] by (simp add: u_def k_def len)
  have bw: "bit (word_of_nat u :: 32 word) k = bit u k"
    using k(1) by (simp add: bit_simps)
  have mag: "uint (take_bit k (word_of_nat u :: 32 word)) = int (u AND (2 ^ k - 1))"
  proof -
    have "take_bit k u \<le> u" by (rule take_bit_nat_less_eq_self)
    then have "take_bit k u < 2 ^ 32" using u32 by (rule le_less_trans)
    then have e: "uint (word_of_nat (take_bit k u) :: 32 word) = int (take_bit k u)"
      using k(1) by (simp add: unsigned_of_nat take_bit_nat_eq_self min_def)
    have t: "take_bit k (word_of_nat u :: 32 word) = word_of_nat (take_bit k u)"
      by (simp add: take_bit_of_nat)
    have m: "take_bit k u = u AND (2 ^ k - 1)"
      by (simp add: take_bit_eq_mask mask_eq_exp_minus_1)
    show ?thesis unfolding t e by (simp only: m)
  qed
  have pos: "sint (word_of_nat u :: 32 word) = int u" if "\<not> bit u k"
  proof -
    have "u < 2 ^ k" using u1 that by (rule nat_below_top_bit)
    also have "(2::nat) ^ k \<le> 2 ^ 31" using k by (intro power_increasing) simp_all
    finally show ?thesis by (rule sint_word_of_nat_small)
  qed
  show ?thesis
    unfolding readInt_word[OF assms] Let_def bs_def[symmetric] u_def[symmetric] k_def[symmetric]
      bw mag top[symmetric]
    using pos by (cases "bit u k") simp_all
qed

lemma readUint_unsigned_small:
  assumes "0 \<le> offset" and "offset + int n \<le> int (length buffer)"
    and "be_nat (take n (drop (nat offset) buffer)) < 2 ^ 31"
  shows "readUint buffer offset n = int (be_nat (take n (drop (nat offset) buffer)))"
  unfolding readUint_word[OF assms(1,2)] by (rule sint_word_of_nat_small[OF assms(3)])

text \<open>
  C2. For \<open>n\<close> in \<open>{1, 2, 4}\<close> and \<open>n\<close> bytes at the offset, \<open>readInt\<close> is the GRIB2
  sign-magnitude reading: the unsigned big-endian value when the high bit of the first
  byte is clear, and minus the value with that bit masked off
  (\<open>unsigned AND (2^(8n-1) - 1)\<close>) when it is set. In particular
  \<open>readInt [0x80, 0x00, 0x00, 0x01] 4 = -1\<close>.
\<close>

theorem C2_readInt_sign_magnitude:
  "(n \<in> {1, 2, 4} \<and> 0 \<le> offset \<and> offset + int n \<le> int (length buffer) \<longrightarrow>
      readInt buffer offset n =
        (let bs = take n (drop (nat offset) buffer); u = be_nat bs
         in if \<not> bit (hd bs) 7 then int u else - int (u AND (2 ^ (8 * n - 1) - 1))))
   \<and> readInt [0x80, 0x00, 0x00, 0x01] 0 4 = - 1"
proof (intro conjI impI)
  show "readInt [0x80, 0x00, 0x00, 0x01] 0 4 = - 1"
    by code_simp
next
  assume a: "n \<in> {1, 2, 4} \<and> 0 \<le> offset \<and> offset + int n \<le> int (length buffer)"
  then have "1 \<le> n" "n \<le> 4" by auto
  then show "readInt buffer offset n =
        (let bs = take n (drop (nat offset) buffer); u = be_nat bs
         in if \<not> bit (hd bs) 7 then int u else - int (u AND (2 ^ (8 * n - 1) - 1)))"
    using a by (intro readInt_sign_magnitude) simp_all
qed

theorem C2_readInt_sign_magnitude_witness:
  "readInt [0xFF, 0x80, 0x05] 1 2 = - 5 \<and> readInt [0xFF, 0x7F, 0x05] 1 2 = 32517"
proof -
  have h: "(2::nat) \<in> {1, 2, 4} \<and> (0::int) \<le> 1 \<and> 1 + int 2 \<le> int (length [0xFF, 0x80, 0x05 :: 8 word])"
      "(2::nat) \<in> {1, 2, 4} \<and> (0::int) \<le> 1 \<and> 1 + int 2 \<le> int (length [0xFF, 0x7F, 0x05 :: 8 word])"
    by simp_all
  have r: "(let bs = take 2 (drop (nat 1) [0xFF, 0x80, 0x05 :: 8 word]); u = be_nat bs
         in if \<not> bit (hd bs) 7 then int u else - int (u AND (2 ^ (8 * 2 - 1) - 1))) = - 5"
      "(let bs = take 2 (drop (nat 1) [0xFF, 0x7F, 0x05 :: 8 word]); u = be_nat bs
         in if \<not> bit (hd bs) 7 then int u else - int (u AND (2 ^ (8 * 2 - 1) - 1))) = 32517"
    by (simp_all add: be_nat_def)
  from C2_readInt_sign_magnitude[of 2 1 "[0xFF, 0x80, 0x05]"] h(1)
  have "readInt [0xFF, 0x80, 0x05] 1 2 = - 5" unfolding r(1) by blast
  moreover from C2_readInt_sign_magnitude[of 2 1 "[0xFF, 0x7F, 0x05]"] h(2)
  have "readInt [0xFF, 0x7F, 0x05] 1 2 = 32517" unfolding r(2) by blast
  ultimately show ?thesis by simp
qed

text \<open>
  C9. \<open>readUint\<close> is meant to return the unsigned big-endian value of \<open>n\<close> bytes, and
  does so while that value is below \<open>2^31\<close> (\<open>readUint_unsigned_small\<close>). The 32-bit
  signed \<open><<\<close> and \<open>|\<close> make it return the two's-complement reading modulo \<open>2^32\<close>
  otherwise (\<open>readUint_word\<close>): four bytes with the high bit set give a negative
  number, and five bytes lose the first.
\<close>

theorem C9_readUint_signed_wrap:
  "readUint [0x80, 0x00, 0x00, 0x00] 0 4 = - 2147483648
   \<and> be_nat [0x80, 0x00, 0x00, 0x00] = 2147483648
   \<and> readUint [0x01, 0x00, 0x00, 0x00, 0x00] 0 5 = 0
   \<and> be_nat [0x01, 0x00, 0x00, 0x00, 0x00] = 4294967296"
proof (intro conjI)
  show "readUint [0x80, 0x00, 0x00, 0x00] 0 4 = - 2147483648" by code_simp
  show "readUint [0x01, 0x00, 0x00, 0x00, 0x00] 0 5 = 0" by code_simp
  show "be_nat [0x80, 0x00, 0x00, 0x00] = 2147483648" by (simp add: be_nat_def)
  show "be_nat [0x01, 0x00, 0x00, 0x00, 0x00] = 4294967296" by (simp add: be_nat_def)
qed

subsection \<open>Grid template 0\<close>

lemma wrapLon_range: "- 180 \<le> l \<Longrightarrow> l \<le> 540 \<Longrightarrow> - 180 \<le> wrapLon l \<and> wrapLon l \<le> 180"
  by (simp add: wrapLon_def)

text \<open>
  C8 (as amended). For every template-0 grid header each corner longitude greater than
  180 is mapped to \<open>lon - 360\<close>, once; the bounds are the axis-aligned minimum and
  maximum of the two corners, so \<open>west \<le> east\<close> and \<open>south \<le> north\<close>; and when both
  corner longitudes of the header lie in \<open>[-180, 540]\<close>, which includes the range
  \<open>[0, 360]\<close> of GRIB2, the bounds satisfy \<open>-180 \<le> west \<le> east \<le> 180\<close>.
\<close>

theorem C8_parseGridTemplate0_bounds:
  "(let d = real_of_int (angleDivisor buffer offset);
        la1 = real_of_int (readInt buffer (offset + 32) 4) / d;
        r1 = real_of_int (readInt buffer (offset + 36) 4) / d;
        la2 = real_of_int (readInt buffer (offset + 41) 4) / d;
        r2 = real_of_int (readInt buffer (offset + 45) 4) / d;
        lo1 = (if r1 > 180 then r1 - 360 else r1);
        lo2 = (if r2 > 180 then r2 - 360 else r2);
        g = parseGridTemplate0 buffer offset numPoints
    in grid_lon1 g = Some lo1 \<and> grid_lon2 g = Some lo2
       \<and> grid_bounds g = Some \<lparr> west = min lo1 lo2, east = max lo1 lo2,
                                  south = min la1 la2, north = max la1 la2 \<rparr>
       \<and> min lo1 lo2 \<le> max lo1 lo2 \<and> min la1 la2 \<le> max la1 la2
       \<and> (- 180 \<le> r1 \<and> r1 \<le> 540 \<and> - 180 \<le> r2 \<and> r2 \<le> 540
            \<longrightarrow> - 180 \<le> min lo1 lo2 \<and> max lo1 lo2 \<le> 180))"
  by (auto simp: parseGridTemplate0_def Let_def wrapLon_def)

theorem C8_parseGridTemplate0_bounds_witness:
  "grid_bounds (parseGridTemplate0
      (replicate 32 0 @ [0x03, 0x47, 0x3B, 0xC0, 0x0D, 0xB5, 0x85, 0x80, 0x30,
                         0x01, 0x31, 0x2D, 0x00, 0x11, 0xE1, 0xA3, 0x00] @ replicate 9 0) 0 1)
     = Some \<lparr> west = - 130, east = - 60, south = 20, north = 55 \<rparr>"
proof -
  define h :: buffer where
    "h = replicate 32 0 @ [0x03, 0x47, 0x3B, 0xC0, 0x0D, 0xB5, 0x85, 0x80, 0x30,
                         0x01, 0x31, 0x2D, 0x00, 0x11, 0xE1, 0xA3, 0x00] @ replicate 9 0"
  have r: "readInt h 32 4 = 55000000" "readInt h 36 4 = 230000000"
      "readInt h 41 4 = 20000000" "readInt h 45 4 = 300000000"
      "angleDivisor h 0 = 1000000"
    unfolding h_def by code_simp+
  show ?thesis
    using C8_parseGridTemplate0_bounds[of h 0 1]
    unfolding h_def[symmetric] by (simp add: Let_def r)
qed

text \<open>
  A header whose two corner longitudes are 600 degrees: one subtraction of 360 leaves
  the bounds at 240, outside \<open>[-180, 180]\<close>.
\<close>

theorem C8_bounds_counterexample:
  "grid_bounds (parseGridTemplate0
      (replicate 36 0 @ [0x23, 0xC3, 0x46, 0x00] @ replicate 5 0
         @ [0x23, 0xC3, 0x46, 0x00] @ replicate 9 0) 0 1)
     = Some \<lparr> west = 240, east = 240, south = 0, north = 0 \<rparr>
   \<and> \<not> (240 :: real) \<le> 180"
proof -
  define h :: buffer where
    "h = replicate 36 0 @ [0x23, 0xC3, 0x46, 0x00] @ replicate 5 0
         @ [0x23, 0xC3, 0x46, 0x00] @ replicate 9 0"
  have r: "readInt h 32 4 = 0" "readInt h 36 4 = 600000000"
      "readInt h 41 4 = 0" "readInt h 45 4 = 600000000"
      "angleDivisor h 0 = 1000000"
    unfolding h_def by code_simp+
  show ?thesis
    unfolding h_def[symmetric] by (simp add: parseGridTemplate0_def Let_def r wrapLon_def)
qed

subsection \<open>PNG-embedded packing and the byte fallbacks\<close>




lemma unpackPng_fill_nth:
  "m < length vs \<Longrightarrow> unpackPng_fill numPoints i vs ! m =
     (if i \<le> m \<and> m < numPoints then - 999 else vs ! m)"
proof (induction numPoints i vs rule: unpackPng_fill.induct)
  case (1 numPoints i vs)
  show ?case
  proof (cases "i < numPoints")
    case True
    show ?thesis
    proof (cases "m = i")
      case eq: True
      then show ?thesis using True 1 by (subst unpackPng_fill.simps) simp
    next
      case False
      then show ?thesis using True 1 by (subst unpackPng_fill.simps) auto
    qed
  next
    case False
    then show ?thesis by (subst unpackPng_fill.simps) auto
  qed
qed


lemma unpackPng_loop_length:
  "length (unpackPng_loop data channels R E D bits numPoints i vs) = length vs"
proof (induction data channels R E D bits numPoints i vs rule: unpackPng_loop.induct)
  case (1 data channels R E D bits numPoints i vs)
  then show ?case by (subst unpackPng_loop.simps) simp
qed




lemma unpackPng_beyond:
  assumes "i < numPoints" and "1 \<le> channels" and "length data mod channels = 0"
    and "\<not> i * channels < length data"
  shows "unpackPng (SharpRaw data channels) dataBuffer R E D bits numPoints ! i = - 999"
proof -
  have "length data = (length data div channels) * channels" using assms(3) by auto
  then have "(length data div channels) * channels \<le> i * channels" using assms(4) by simp
  then have "length data div channels \<le> i" using assms(2) by simp
  then show ?thesis
    using assms by (simp add: unpackPng_def unpackPng_rest_def unpackPng_fill_nth unpackPng_loop_length)
qed







subsection \<open>Simple packing\<close>

text \<open>
  C3. Simple packing is meant to give cell \<open>i\<close> the value \<open>(R + X_i * 2^E) * 10^(-D)\<close> with
  \<open>X_i\<close> the unsigned MSB-first bit field of width \<open>bits_per_value\<close> at bit offset
  \<open>i * bits_per_value\<close>, for every width up to 32. The decoder assembles \<open>X_i\<close> with the
  signed 32-bit \<open><<\<close> and \<open>|\<close>: a 32-bit field with its top bit set comes out
  negative. Here the field \<open>0x80000000\<close> is 2147483648 and the decoder stores
  \<open>-2147483648\<close>.
\<close>

theorem C3_unpackSimple_32bit_negative:
  "unpackSimple [0x80, 0x00, 0x00, 0x00] 0 0 0 (Some 32) 1 = [- 2147483648]
   \<and> unpackSimple_packed [0x80, 0x00, 0x00, 0x00] 32 0 = - 2147483648
   \<and> bitField [0x80, 0x00, 0x00, 0x00] 0 32 = 2147483648
   \<and> unpackSimple_packed [0xFF, 0xFF, 0xFF, 0xFF] 32 0 = - 1
   \<and> bitField [0xFF, 0xFF, 0xFF, 0xFF] 0 32 = 4294967295"
proof (intro conjI)
  show "unpackSimple [0x80, 0x00, 0x00, 0x00] 0 0 0 (Some 32) 1 = [- 2147483648]"
    by code_simp
  show "unpackSimple_packed [0x80, 0x00, 0x00, 0x00] 32 0 = - 2147483648"
    by code_simp
  show "unpackSimple_packed [0xFF, 0xFF, 0xFF, 0xFF] 32 0 = - 1"
    by code_simp
  show "bitField [0x80, 0x00, 0x00, 0x00] 0 32 = 2147483648"
    by (simp add: bitField_def be_nat_def)
  show "bitField [0xFF, 0xFF, 0xFF, 0xFF] 0 32 = 4294967295"
    by (simp add: bitField_def be_nat_def)
qed

end
